theory Spec2Isabelle
  imports
    Main
    "HOL-Library.Char_ord"
    "HOL-Library.List_Lexorder"
    "HOL-Library.Product_Lexorder"
    "HOL-Library.Multiset"
begin

section \<open>The Scrubber of scrubadub (scrubbers.py)\<close>

text \<open>
  A shallow embedding of the class \<open>Scrubber\<close>: the detector and post-processor
  registries, the collection of filth, the sort and the merge of overlapping filth, and
  the reconstruction of the clean text. Python exceptions are values: an operation that
  can raise returns either the error or its result.
\<close>

subsection \<open>Filth\<close>

datatype error =
    TypeError string
  | ValueError string
  | KeyError string
  | AttributeError string
  | IndexError string

text \<open>
  The attributes of a \<open>Filth\<close> that scrubbers.py reads: \<open>beg\<close>, \<open>end\<close> (here
  \<open>fend\<close>), \<open>document_name\<close> and \<open>replacement_string\<close>, and the metadata that a merge
  retains: the kinds and the names of the detectors of the filth merged into it.
\<close>

record filth =
  beg :: int
  fend :: int
  document_name :: "string option"
  replacement_string :: "string option"
  kinds :: "string list"
  detector_names :: "string list"

text \<open>
  Modelled from the spec: \<open>Filth()\<close>, the default constructor (filth.py is not part of
  the sources at hand). \<open>_replace_text\<close> uses it as the span before the first one, so
  that the walk starts at offset 0.
\<close>

definition Filth :: filth where
  "Filth = \<lparr>beg = 0, fend = 0, document_name = None, replacement_string = None,
            kinds = [], detector_names = []\<rparr>"

text \<open>
  Modelled from the spec: \<open>Filth.merge\<close> (filth.py is not part of the sources at hand).
  The merged span runs from the smaller \<open>beg\<close> to the larger \<open>end\<close>, stays in the
  document of the receiver, and retains the kinds and the detector names of both spans,
  those of the receiver first. It is a new span, with no fixed replacement of its own.
  The spec defines it for two spans of one document only; \<open>_merge_filths\<close> calls it on
  two spans of one document's list.
\<close>

definition merge :: "filth \<Rightarrow> filth \<Rightarrow> filth" where
  "merge self other_filth =
     \<lparr>beg = min (beg self) (beg other_filth),
      fend = max (fend self) (fend other_filth),
      document_name = document_name self,
      replacement_string = None,
      kinds = kinds self @ kinds other_filth,
      detector_names = detector_names self @ detector_names other_filth\<rparr>"

subsection \<open>Python strings\<close>

text \<open>
  \<open>text[i:j]\<close> and \<open>text[i:]\<close> on a Python string: a negative index counts from the
  end, and every index is clamped to the string; an empty range is the empty string.
\<close>

definition py_index :: "int \<Rightarrow> nat \<Rightarrow> nat" where
  "py_index i n = (if i < 0 then nat (max 0 (i + int n)) else min (nat i) n)"

definition slice :: "string \<Rightarrow> int \<Rightarrow> int \<Rightarrow> string" where
  "slice text i j =
     (let a = py_index i (length text); b = py_index j (length text)
      in take (b - a) (drop a text))"

definition slice_from :: "string \<Rightarrow> int \<Rightarrow> string" where
  "slice_from text i = drop (py_index i (length text)) text"

text \<open>\<open>str(n)\<close> of a position \<open>n\<close> of \<open>enumerate\<close>: its decimal digits.\<close>

definition digit :: "nat \<Rightarrow> char" where
  "digit d = ''0123456789'' ! d"

fun str_nat :: "nat \<Rightarrow> string" where
  "str_nat n = (if n < 10 then [digit n] else str_nat (n div 10) @ [digit (n mod 10)])"

declare str_nat.simps [simp del]

text \<open>\<open>str(document_name)\<close>: the name itself, and \<open>'None'\<close> for \<open>None\<close>.\<close>

definition str_document_name :: "string option \<Rightarrow> string" where
  "str_document_name d = (case d of None \<Rightarrow> ''None'' | Some n \<Rightarrow> n)"

subsection \<open>Sorting and merging\<close>

text \<open>
  \<open>_sort_filths\<close>: Python's \<open>list.sort\<close> is stable, as \<open>sort_key\<close> is; tuples and
  strings compare lexicographically.
\<close>

definition sort_key_of :: "filth \<Rightarrow> string \<times> int \<times> int" where
  "sort_key_of f = (str_document_name (document_name f), beg f, - fend f)"

definition sort_filths :: "filth list \<Rightarrow> filth list" where
  "sort_filths filth_list = sort_key sort_key_of filth_list"

text \<open>The loop of \<open>_merge_filths\<close> over one document's sorted list, after its head.\<close>

fun merge_loop :: "filth \<Rightarrow> filth list \<Rightarrow> filth list" where
  "merge_loop filth [] = [filth]"
| "merge_loop filth (next_filth # rest) =
     (if fend filth < beg next_filth then filth # merge_loop next_filth rest
      else merge_loop (merge filth next_filth) rest)"

text \<open>
  \<open>document_names\<close>: \<open>None\<close> first when some filth has no document name, then the
  names in ascending order, each once.
\<close>

definition named_documents :: "filth list \<Rightarrow> string list" where
  "named_documents filth_list =
     sort (remdups (concat (map (\<lambda>f. case document_name f of None \<Rightarrow> [] | Some n \<Rightarrow> [n])
                                 filth_list)))"

definition document_names :: "filth list \<Rightarrow> string option list" where
  "document_names filth_list =
     (if None \<in> set (map document_name filth_list)
      then [None] @ map Some (named_documents filth_list)
      else map Some (named_documents filth_list))"

text \<open>One document's turn: \<open>document_filth_list[0]\<close> raises on an empty list.\<close>

definition merge_document :: "filth list \<Rightarrow> string option \<Rightarrow> error + filth list" where
  "merge_document filth_list dn =
     (case sort_filths (filter (\<lambda>f. document_name f = dn) filth_list) of
        [] \<Rightarrow> Inl (IndexError ''list index out of range'')
      | filth # rest \<Rightarrow> Inr (merge_loop filth rest))"

fun merge_documents :: "filth list \<Rightarrow> string option list \<Rightarrow> error + filth list" where
  "merge_documents filth_list [] = Inr []"
| "merge_documents filth_list (dn # dns) =
     (case merge_document filth_list dn of
        Inl e \<Rightarrow> Inl e
      | Inr merged \<Rightarrow>
          (case merge_documents filth_list dns of
             Inl e \<Rightarrow> Inl e
           | Inr others \<Rightarrow> Inr (merged @ others)))"

definition merge_filths :: "filth list \<Rightarrow> error + filth list" where
  "merge_filths filth_list =
     (if filth_list = [] then Inr []
      else merge_documents filth_list (document_names filth_list))"

subsection \<open>Reconstruction\<close>

text \<open>
  The loop of \<open>_replace_text\<close>: the chunks appended to \<open>clean_chunks\<close>.
  \<open>replace_with\<close> is \<open>Filth.replace_with\<close> with the caller's keyword arguments.
\<close>

fun replace_loop :: "(filth \<Rightarrow> string) \<Rightarrow> string \<Rightarrow> filth \<Rightarrow> filth list \<Rightarrow> string list" where
  "replace_loop replace_with text filth [] = [slice_from text (fend filth)]"
| "replace_loop replace_with text filth (next_filth # rest) =
     slice text (fend filth) (beg next_filth)
     # (case replacement_string next_filth of
          Some r \<Rightarrow> r
        | None \<Rightarrow> replace_with next_filth)
     # replace_loop replace_with text next_filth rest"

definition replace_text ::
  "(filth \<Rightarrow> string) \<Rightarrow> string \<Rightarrow> filth list \<Rightarrow> string option \<Rightarrow> string" where
  "replace_text replace_with text filth_list dn =
     (let filth_list1 = (if dn \<noteq> None
                         then filter (\<lambda>f. document_name f = dn) filth_list
                         else filth_list)
      in concat (replace_loop replace_with text Filth (sort_filths filth_list1)))"

text \<open>
  The walk as the specification words it: a cursor into the text, the passthrough up to
  the span, the span's replacement, the cursor moved to the span's end, and the rest of
  the text after the last span.
\<close>

fun rebuild :: "(filth \<Rightarrow> string) \<Rightarrow> string \<Rightarrow> int \<Rightarrow> filth list \<Rightarrow> string" where
  "rebuild replace_with text cursor [] = slice_from text cursor"
| "rebuild replace_with text cursor (span # spans) =
     slice text cursor (beg span)
     @ (case replacement_string span of
          Some r \<Rightarrow> r
        | None \<Rightarrow> replace_with span)
     @ rebuild replace_with text (fend span) spans"

subsection \<open>Detectors, post-processors and the values handed to the registries\<close>

text \<open>
  What a detector's \<open>iter_filth\<close> yields: a \<open>Filth\<close>, or a value that is not one.
  Detectors and post-processors are the plug-ins of the scrubber; their code is not the
  scrubber's, so they are records of their name and their method, a total function.
\<close>

datatype yielded = Yield filth | NotFilth

record detector =
  name :: string
  detector_iter_filth :: "string \<Rightarrow> string option \<Rightarrow> yielded list"

record post_processor =
  pp_name :: string
  process_filth :: "filth list \<Rightarrow> filth list"

text \<open>
  A Python type handed to a registry is a subclass of the plug-in class (given by the
  instance its constructor builds) or any other type (given by the \<open>name\<close> attribute of
  its instances, when they have one). A value handed to \<open>add_...\<close> or \<open>remove_...\<close>
  is a type, an instance of the plug-in class, a string, or anything else.
\<close>

datatype 'a pytype = Subclass 'a | OtherType "string option"

datatype 'a pyobj = Instance 'a | NotInstance

datatype 'a pyarg = AType "'a pytype" | AnInstance 'a | AStr string | AOther

definition construct :: "'a pytype \<Rightarrow> 'a pyobj" where
  "construct t = (case t of Subclass x \<Rightarrow> Instance x | OtherType _ \<Rightarrow> NotInstance)"

text \<open>
  The catalogs \<open>detectors.detector_configuration\<close> and
  \<open>post_processors.post_processor_configuration\<close> are module globals that are not part
  of the sources at hand: they are parameters. A Python dict is the list of its items
  in insertion order.
\<close>

record detector_config =
  config_detector :: "detector pytype"
  detector_autoload :: bool

record post_processor_config =
  config_post_processor :: "post_processor pytype"
  post_processor_autoload :: bool
  post_processor_index :: int

record catalog =
  detector_configuration :: "(string \<times> detector_config) list"
  post_processor_configuration :: "(string \<times> post_processor_config) list"

record scrubber =
  detectors :: "(string \<times> detector) list"
  post_processors :: "post_processor list"

text \<open>\<open>d[k] = v\<close> and \<open>d.pop(k)\<close> on a dict, and \<open>l.insert(i, x)\<close> on a list.\<close>

fun dict_setitem :: "'k \<Rightarrow> 'v \<Rightarrow> ('k \<times> 'v) list \<Rightarrow> ('k \<times> 'v) list" where
  "dict_setitem k v [] = [(k, v)]"
| "dict_setitem k v (p # ps) = (if fst p = k then (k, v) # ps else p # dict_setitem k v ps)"

definition dict_pop :: "string \<Rightarrow> (string \<times> 'v) list \<Rightarrow> error + (string \<times> 'v) list" where
  "dict_pop k d =
     (if k \<in> set (map fst d) then Inr (filter (\<lambda>p. fst p \<noteq> k) d) else Inl (KeyError k))"

definition list_insert :: "int \<Rightarrow> 'a \<Rightarrow> 'a list \<Rightarrow> 'a list" where
  "list_insert i x xs =
     (let j = py_index i (length xs) in take j xs @ [x] @ drop j xs)"

subsection \<open>The detector registry\<close>

text \<open>
  A registry operation returns the exception it raised, if any, and the scrubber as the
  call left it.
\<close>

definition check_and_add_detector ::
  "detector pyobj \<Rightarrow> scrubber \<Rightarrow> error option \<times> scrubber" where
  "check_and_add_detector detector s =
     (case detector of
        NotInstance \<Rightarrow>
          (Some (TypeError ''The detector is not an instance of the Detector class.''), s)
      | Instance d \<Rightarrow>
          (if name d \<in> set (map fst (detectors s))
           then (Some (KeyError ''can not add Detector to this Scrubber, this name is already in use. Try removing it first.''), s)
           else (None, s\<lparr>detectors := dict_setitem (name d) d (detectors s)\<rparr>)))"

definition add_detector ::
  "catalog \<Rightarrow> detector pyarg \<Rightarrow> scrubber \<Rightarrow> error option \<times> scrubber" where
  "add_detector cat detector s =
     (case detector of
        AType t \<Rightarrow>
          (case t of
             OtherType _ \<Rightarrow> (Some (TypeError ''is not a subclass of Detector''), s)
           | Subclass d \<Rightarrow> check_and_add_detector (Instance d) s)
      | AnInstance d \<Rightarrow> check_and_add_detector (Instance d) s
      | AStr n \<Rightarrow>
          (case map_of (detector_configuration cat) n of
             Some config \<Rightarrow> check_and_add_detector (construct (config_detector config)) s
           | None \<Rightarrow> (Some (ValueError (''Unknown Detector: '' @ n)), s))
      | AOther \<Rightarrow> (None, s))"

definition pop_detector :: "string \<Rightarrow> scrubber \<Rightarrow> error option \<times> scrubber" where
  "pop_detector n s =
     (case dict_pop n (detectors s) of
        Inl e \<Rightarrow> (Some e, s)
      | Inr d \<Rightarrow> (None, s\<lparr>detectors := d\<rparr>))"

text \<open>\<open>detector().name\<close> of a type: an instance without the attribute raises.\<close>

definition instance_name :: "('a \<Rightarrow> string) \<Rightarrow> 'a pytype \<Rightarrow> error + string" where
  "instance_name nm t =
     (case t of
        Subclass x \<Rightarrow> Inr (nm x)
      | OtherType None \<Rightarrow> Inl (AttributeError ''name'')
      | OtherType (Some n) \<Rightarrow> Inr n)"

definition remove_detector :: "detector pyarg \<Rightarrow> scrubber \<Rightarrow> error option \<times> scrubber" where
  "remove_detector detector s =
     (case detector of
        AType t \<Rightarrow>
          (case instance_name name t of
             Inl e \<Rightarrow> (Some e, s)
           | Inr n \<Rightarrow> pop_detector n s)
      | AnInstance d \<Rightarrow> pop_detector (name d) s
      | AStr n \<Rightarrow> pop_detector n s
      | AOther \<Rightarrow> (None, s))"

subsection \<open>The post-processor registry\<close>

definition check_and_add_post_processor ::
  "post_processor pyobj \<Rightarrow> int option \<Rightarrow> scrubber \<Rightarrow> error option \<times> scrubber" where
  "check_and_add_post_processor post_processor index s =
     (case post_processor of
        NotInstance \<Rightarrow>
          (Some (TypeError ''The PostProcessor is not an instance of the PostProcessor class.''), s)
      | Instance p \<Rightarrow>
          (if pp_name p \<in> set (map pp_name (post_processors s))
           then (Some (KeyError ''can not add PostProcessor to this Scrubber, this name is already in use. Try removing it first.''), s)
           else (case index of
                   None \<Rightarrow> (None, s\<lparr>post_processors := post_processors s @ [p]\<rparr>)
                 | Some i \<Rightarrow> (None, s\<lparr>post_processors := list_insert i p (post_processors s)\<rparr>))))"

definition add_post_processor ::
  "catalog \<Rightarrow> post_processor pyarg \<Rightarrow> int option \<Rightarrow> scrubber \<Rightarrow> error option \<times> scrubber" where
  "add_post_processor cat post_processor index s =
     (case post_processor of
        AType t \<Rightarrow>
          (case t of
             OtherType _ \<Rightarrow> (Some (TypeError ''is not a subclass of PostProcessor''), s)
           | Subclass p \<Rightarrow> check_and_add_post_processor (Instance p) index s)
      | AnInstance p \<Rightarrow> check_and_add_post_processor (Instance p) index s
      | AStr n \<Rightarrow>
          (case map_of (post_processor_configuration cat) n of
             Some config \<Rightarrow>
               check_and_add_post_processor (construct (config_post_processor config)) index s
           | None \<Rightarrow> (Some (ValueError (''Unknown PostProcessor: '' @ n)), s))
      | AOther \<Rightarrow> (None, s))"



subsection \<open>Construction\<close>

text \<open>
  \<open>__init__\<close>: the two loops stop at the first exception, which leaves no scrubber.
  Without a list, the autoloaded entries of the catalog are taken, the post-processors
  in the order of their \<open>index\<close> (\<open>sorted\<close> is stable).
\<close>

fun add_detectors ::
  "catalog \<Rightarrow> detector pyarg list \<Rightarrow> scrubber \<Rightarrow> error option \<times> scrubber" where
  "add_detectors cat [] s = (None, s)"
| "add_detectors cat (detector # rest) s =
     (case add_detector cat detector s of
        (Some e, s') \<Rightarrow> (Some e, s')
      | (None, s') \<Rightarrow> add_detectors cat rest s')"

fun add_post_processors ::
  "catalog \<Rightarrow> post_processor pyarg list \<Rightarrow> scrubber \<Rightarrow> error option \<times> scrubber" where
  "add_post_processors cat [] s = (None, s)"
| "add_post_processors cat (post_processor # rest) s =
     (case add_post_processor cat post_processor None s of
        (Some e, s') \<Rightarrow> (Some e, s')
      | (None, s') \<Rightarrow> add_post_processors cat rest s')"

definition default_detector_list :: "catalog \<Rightarrow> detector pyarg list" where
  "default_detector_list cat =
     map (\<lambda>item. AType (config_detector (snd item)))
         (filter (\<lambda>item. detector_autoload (snd item)) (detector_configuration cat))"

definition default_post_processor_list :: "catalog \<Rightarrow> post_processor pyarg list" where
  "default_post_processor_list cat =
     map (\<lambda>config. AType (config_post_processor config))
         (filter post_processor_autoload
            (sort_key post_processor_index (map snd (post_processor_configuration cat))))"

definition init ::
  "catalog \<Rightarrow> detector pyarg list option \<Rightarrow> post_processor pyarg list option
     \<Rightarrow> error + scrubber" where
  "init cat detector_list post_processor_list =
     (let s0 = \<lparr>detectors = [], post_processors = []\<rparr>;
          detector_list1 = (case detector_list of
                              None \<Rightarrow> default_detector_list cat
                            | Some l \<Rightarrow> l)
      in case add_detectors cat detector_list1 s0 of
           (Some e, _) \<Rightarrow> Inl e
         | (None, s1) \<Rightarrow>
             (let post_processor_list1 = (case post_processor_list of
                                            None \<Rightarrow> default_post_processor_list cat
                                          | Some l \<Rightarrow> l)
              in case add_post_processors cat post_processor_list1 s1 of
                   (Some e, _) \<Rightarrow> Inl e
                 | (None, s2) \<Rightarrow> Inr s2))"

subsection \<open>Collecting filth\<close>

definition post_process_filth_list :: "scrubber \<Rightarrow> filth list \<Rightarrow> filth list" where
  "post_process_filth_list s filth_list =
     fold (\<lambda>post_processor fl. process_filth post_processor fl) (post_processors s) filth_list"

text \<open>
  The loops of \<open>iter_filth\<close> over the detectors and over what each yields: the first
  value that is not a \<open>Filth\<close> raises.
\<close>

fun collect_yielded :: "yielded list \<Rightarrow> error + filth list" where
  "collect_yielded [] = Inr []"
| "collect_yielded (NotFilth # ys) = Inl (TypeError ''iter_filth must always yield Filth'')"
| "collect_yielded (Yield f # ys) =
     (case collect_yielded ys of Inl e \<Rightarrow> Inl e | Inr fs \<Rightarrow> Inr (f # fs))"

fun collect_detectors ::
  "(string \<times> detector) list \<Rightarrow> string \<Rightarrow> string option \<Rightarrow> string list option
     \<Rightarrow> error + filth list" where
  "collect_detectors [] text dn exclude_detectors = Inr []"
| "collect_detectors ((n, d) # rest) text dn exclude_detectors =
     (if (case exclude_detectors of None \<Rightarrow> True | Some ex \<Rightarrow> n \<notin> set ex)
      then (case collect_yielded (detector_iter_filth d text dn) of
              Inl e \<Rightarrow> Inl e
            | Inr fs \<Rightarrow>
                (case collect_detectors rest text dn exclude_detectors of
                   Inl e \<Rightarrow> Inl e
                 | Inr others \<Rightarrow> Inr (fs @ others)))
      else collect_detectors rest text dn exclude_detectors)"

definition iter_filth ::
  "scrubber \<Rightarrow> string \<Rightarrow> string option \<Rightarrow> bool \<Rightarrow> string list option \<Rightarrow> error + filth list" where
  "iter_filth s text dn run_post_processors exclude_detectors =
     (case collect_detectors (detectors s) text dn exclude_detectors of
        Inl e \<Rightarrow> Inl e
      | Inr all_filths \<Rightarrow>
          (case merge_filths all_filths of
             Inl e \<Rightarrow> Inl e
           | Inr merged \<Rightarrow>
               (if run_post_processors then Inr (post_process_filth_list s merged)
                else Inr merged)))"

subsection \<open>Cleaning\<close>

text \<open>
  \<open>clean\<close> and \<open>clean_documents\<close>. The keyword arguments only reach
  \<open>Filth.replace_with\<close>, the parameter \<open>replace_with\<close> here; the deprecation warning
  changes no result.
\<close>

definition clean :: "scrubber \<Rightarrow> (filth \<Rightarrow> string) \<Rightarrow> string \<Rightarrow> error + string" where
  "clean s replace_with text =
     (case iter_filth s text None True None of
        Inl e \<Rightarrow> Inl e
      | Inr filth_list \<Rightarrow>
          Inr (replace_text replace_with text (post_process_filth_list s filth_list) None))"

text \<open>
  The value handed to \<open>clean_documents\<close>: a list of texts, a dict from names to
  texts, or anything else.
\<close>

datatype documents = DocList "string list" | DocDict "(string \<times> string) list" | DocOther

definition enumerate_str :: "string list \<Rightarrow> (string \<times> string) list" where
  "enumerate_str docs = zip (map str_nat [0..<length docs]) docs"

fun iter_filth_named :: "scrubber \<Rightarrow> (string \<times> string) list \<Rightarrow> error + filth list" where
  "iter_filth_named s [] = Inr []"
| "iter_filth_named s ((n, document) # rest) =
     (case iter_filth s document (Some n) True None of
        Inl e \<Rightarrow> Inl e
      | Inr fs \<Rightarrow>
          (case iter_filth_named s rest of
             Inl e \<Rightarrow> Inl e
           | Inr others \<Rightarrow> Inr (fs @ others)))"

definition clean_documents ::
  "scrubber \<Rightarrow> (filth \<Rightarrow> string) \<Rightarrow> documents \<Rightarrow> error + documents" where
  "clean_documents s replace_with docs =
     (case docs of
        DocList l \<Rightarrow>
          (case iter_filth_named s (enumerate_str l) of
             Inl e \<Rightarrow> Inl e
           | Inr filth_list0 \<Rightarrow>
               (let filth_list = post_process_filth_list s filth_list0
                in Inr (DocList (map (\<lambda>item. replace_text replace_with (snd item) filth_list
                                                (Some (fst item)))
                                     (enumerate_str l)))))
      | DocDict d \<Rightarrow>
          (case iter_filth_named s d of
             Inl e \<Rightarrow> Inl e
           | Inr filth_list0 \<Rightarrow>
               (let filth_list = post_process_filth_list s filth_list0
                in Inr (DocDict (map (\<lambda>item. (fst item,
                                               replace_text replace_with (snd item) filth_list
                                                 (Some (fst item))))
                                     d))))
      | DocOther \<Rightarrow>
          Inl (TypeError ''documents type should be one of: list of strings or a dict of strings with the key as the document title.''))"

subsection \<open>The states of a scrubber\<close>



subsection \<open>Auxiliary notions for the properties\<close>

text \<open>
  The merge as a total function: what \<open>_merge_filths\<close> yields, shown below to be its
  result on every list, so that \<open>document_filth_list[0]\<close> never raises.
\<close>

definition merged_document :: "filth list \<Rightarrow> string option \<Rightarrow> filth list" where
  "merged_document filth_list dn =
     (case sort_filths (filter (\<lambda>f. document_name f = dn) filth_list) of
        [] \<Rightarrow> []
      | filth # rest \<Rightarrow> merge_loop filth rest)"

definition merged :: "filth list \<Rightarrow> filth list" where
  "merged filth_list = concat (map (merged_document filth_list) (document_names filth_list))"

text \<open>
  The order of the documents in the output of the merge: no name before every name, and
  the names in the lexicographic order of strings.
\<close>

definition document_before :: "string option \<Rightarrow> string option \<Rightarrow> bool" where
  "document_before x y =
     (case x of
        None \<Rightarrow> True
      | Some n \<Rightarrow> (case y of None \<Rightarrow> False | Some m \<Rightarrow> n \<le> m))"

text \<open>
  The filth that the detectors of a registry yield on a text, in the order of the
  registry, and whether each of them yields nothing but filth.
\<close>

definition yielded_filths :: "yielded list \<Rightarrow> filth list" where
  "yielded_filths ys = concat (map (\<lambda>y. case y of Yield f \<Rightarrow> [f] | NotFilth \<Rightarrow> []) ys)"

definition all_filths :: "(string \<times> detector) list \<Rightarrow> string \<Rightarrow> string option \<Rightarrow> filth list" where
  "all_filths reg text dn =
     concat (map (\<lambda>p. yielded_filths (detector_iter_filth (snd p) text dn)) reg)"

definition yield_filth_only :: "(string \<times> detector) list \<Rightarrow> string \<Rightarrow> string option \<Rightarrow> bool" where
  "yield_filth_only reg text dn =
     list_all (\<lambda>p. NotFilth \<notin> set (detector_iter_filth (snd p) text dn)) reg"

text \<open>The document and the range of a span.\<close>

definition span_of :: "filth \<Rightarrow> string option \<times> int \<times> int" where
  "span_of f = (document_name f, beg f, fend f)"

text \<open>
  Two spans are strictly apart when one ends before the other begins, with at least one
  offset between them: neither overlapping nor touching.
\<close>

definition apart :: "filth \<Rightarrow> filth \<Rightarrow> bool" where
  "apart a b = (fend a < beg b \<or> fend b < beg a)"

text \<open>
  The order that \<open>_replace_text\<close> relies on, between a span and a later one of the
  list: the later span begins at or after the end of the earlier one, and a span that
  begins where an earlier span begins is empty (an empty span is not followed by a
  non-empty span at its own offset).
\<close>

definition precedes :: "filth \<Rightarrow> filth \<Rightarrow> bool" where
  "precedes a b = (fend a \<le> beg b \<and> (beg a < beg b \<or> fend b \<le> beg b))"

text \<open>
  For a batch of named documents: whether every detector yields nothing but filth on
  every document, and the list of filth that \<open>clean_documents\<close> reconstructs the
  documents from, which is the filth of every document, merged and post-processed
  document by document in \<open>iter_filth\<close>, then post-processed together.
\<close>

definition documents_yield_filth_only :: "scrubber \<Rightarrow> (string \<times> string) list \<Rightarrow> bool" where
  "documents_yield_filth_only s named =
     list_all (\<lambda>item. yield_filth_only (detectors s) (snd item) (Some (fst item))) named"

definition final_filths :: "scrubber \<Rightarrow> (string \<times> string) list \<Rightarrow> filth list" where
  "final_filths s named =
     post_process_filth_list s
       (concat (map (\<lambda>item. post_process_filth_list s
                               (merged (all_filths (detectors s) (snd item) (Some (fst item)))))
                    named))"

subsection \<open>Example values\<close>

text \<open>
  Concrete detectors and a concrete catalog, for the examples that follow the theorems: a detector that
  yields one span of a given kind over a given range, tagged with the document it is
  handed, a detector that takes a text with an \<open>@\<close> for an address, and a detector
  that yields a value that is not a \<open>Filth\<close>.
\<close>

definition span_detector :: "string \<Rightarrow> string \<Rightarrow> int \<Rightarrow> int \<Rightarrow> detector" where
  "span_detector n kind b e =
     \<lparr>name = n,
      detector_iter_filth =
        (\<lambda>text dn. [Yield \<lparr>beg = b, fend = e, document_name = dn, replacement_string = None,
                            kinds = [kind], detector_names = [n]\<rparr>])\<rparr>"

definition email_detector :: "string \<Rightarrow> detector" where
  "email_detector n =
     \<lparr>name = n,
      detector_iter_filth =
        (\<lambda>text dn. if CHR ''@'' \<in> set text
                    then [Yield \<lparr>beg = 0, fend = int (length text), document_name = dn,
                                 replacement_string = None, kinds = [''EMAIL''],
                                 detector_names = [n]\<rparr>]
                    else [])\<rparr>"


definition empty_catalog :: catalog where
  "empty_catalog = \<lparr>detector_configuration = [], post_processor_configuration = []\<rparr>"

definition empty_scrubber :: scrubber where
  "empty_scrubber = \<lparr>detectors = [], post_processors = []\<rparr>"

definition email_scrubber :: scrubber where
  "email_scrubber =
     \<lparr>detectors = [(''email'', email_detector ''email'')], post_processors = []\<rparr>"


text \<open>
  An example of \<open>Filth.replace_with\<close>: the placeholder of a span, its kinds joined by
  \<open>+\<close> between braces.
\<close>

fun join_kinds :: "string list \<Rightarrow> string" where
  "join_kinds [] = []"
| "join_kinds [k] = k"
| "join_kinds (k # ks) = k @ ''+'' @ join_kinds ks"

definition placeholder :: "filth \<Rightarrow> string" where
  "placeholder f = ''{{'' @ join_kinds (kinds f) @ ''}}''"

text \<open>
  An example list of filth over three documents: the document without a name and the
  documents \<open>a\<close> and \<open>b\<close>.
\<close>

definition example_filths :: "filth list" where
  "example_filths =
     [Filth\<lparr>beg := 0, fend := 3, document_name := Some ''b''\<rparr>,
      Filth\<lparr>beg := 4, fend := 6\<rparr>,
      Filth\<lparr>beg := 0, fend := 5, document_name := Some ''a''\<rparr>,
      Filth\<lparr>beg := 0, fend := 9, document_name := Some ''a''\<rparr>]"

section \<open>Properties\<close>

subsection \<open>The documents of a list of filth\<close>

lemma named_documents_eq:
  "named_documents fl = sorted_list_of_set {n. Some n \<in> document_name ` set fl}"
proof -
  have "{n. Some n \<in> document_name ` set fl} =
        set (concat (map (\<lambda>f. case document_name f of None \<Rightarrow> [] | Some n \<Rightarrow> [n]) fl))"
    by (auto split: option.splits)
  then show ?thesis
    unfolding named_documents_def by (simp only: sorted_list_of_set_sort_remdups)
qed

lemma document_names_single:
  assumes "fl \<noteq> []" "\<forall>f\<in>set fl. document_name f = d"
  shows "document_names fl = [d]"
proof (cases d)
  case None
  then have "{n. Some n \<in> document_name ` set fl} = {}" using assms(2) by auto
  moreover have "None \<in> set (map document_name fl)" using assms None by (cases fl) auto
  ultimately show ?thesis using None
    by (simp add: document_names_def named_documents_eq del: set_map)
next
  case (Some n)
  then have "{n. Some n \<in> document_name ` set fl} = {n}" using assms by (cases fl) auto
  moreover have "None \<notin> set (map document_name fl)" using assms Some by auto
  ultimately show ?thesis using Some
    by (simp add: document_names_def named_documents_eq del: set_map)
qed

lemma merge_filths_single_document:
  assumes "fl \<noteq> []" "\<forall>f\<in>set fl. document_name f = d"
  shows "\<exists>x xs. sort_filths fl = x # xs \<and> merge_filths fl = Inr (merge_loop x xs)"
proof -
  have f: "filter (\<lambda>f. document_name f = d) fl = fl"
    using assms(2) by (simp add: filter_id_conv)
  have "length (sort_filths fl) = length fl" by (simp add: sort_filths_def)
  then obtain x xs where "sort_filths fl = x # xs"
    using assms(1) by (cases "sort_filths fl") auto
  then show ?thesis using assms(1) document_names_single[OF assms]
    by (simp add: merge_filths_def merge_document_def f)
qed

subsection \<open>Merging two spans\<close>

text \<open>
  Claim C1, amended. For every two spans \<open>a\<close> and \<open>b\<close> of one document that overlap or
  touch, that is \<open>a.end >= b.begin\<close> and \<open>b.end >= a.begin\<close>, the merge of the list of
  the two yields a single span, from the smaller begin to the larger end. And on every
  non-empty list of one document, the merge is the loop over the sorted list: a running
  span that absorbs the next one when its end reaches the next begin, and is emitted
  otherwise.
\<close>

theorem merge_filths_overlapping_pair:
  "(document_name a = document_name b \<and> beg b \<le> fend a \<and> beg a \<le> fend b \<longrightarrow>
      (\<exists>m. merge_filths [a, b] = Inr [m] \<and>
           beg m = min (beg a) (beg b) \<and> fend m = max (fend a) (fend b)))
   \<and> (fl \<noteq> [] \<and> list_all (\<lambda>f. document_name f = d) fl \<longrightarrow>
      (\<exists>x xs. sort_filths fl = x # xs \<and> merge_filths fl = Inr (merge_loop x xs)))
   \<and> merge_loop cur [] = [cur]
   \<and> merge_loop cur (nxt # rest) =
       (if beg nxt \<le> fend cur then merge_loop (merge cur nxt) rest
        else cur # merge_loop nxt rest)"
proof -
  have pair: "\<exists>m. merge_filths [a, b] = Inr [m] \<and>
           beg m = min (beg a) (beg b) \<and> fend m = max (fend a) (fend b)"
    if h: "document_name a = document_name b" "beg b \<le> fend a" "beg a \<le> fend b"
  proof -
    have "\<exists>x xs. sort_filths [a, b] = x # xs \<and> merge_filths [a, b] = Inr (merge_loop x xs)"
      using h(1) by (intro merge_filths_single_document[where d = "document_name a"]) auto
    then show ?thesis using h
      by (auto simp: sort_filths_def sort_key_of_def merge_def split: if_splits)
  qed
  have loop: "merge_loop cur (nxt # rest) =
       (if beg nxt \<le> fend cur then merge_loop (merge cur nxt) rest
        else cur # merge_loop nxt rest)"
    by auto
  show ?thesis
    using pair merge_filths_single_document[of fl d] loop by (simp add: list_all_iff)
qed

text \<open>
  The theorem at \<open>[0, 10)\<close> and \<open>[5, 15)\<close>, with the second span first in the list:
  the one span \<open>[0, 15)\<close>.
\<close>

theorem merge_filths_overlapping_pair_witness:
  "document_name (Filth\<lparr>beg := 5, fend := 15\<rparr>) = document_name (Filth\<lparr>beg := 0, fend := 10\<rparr>)
   \<and> beg (Filth\<lparr>beg := 0, fend := 10\<rparr>) \<le> fend (Filth\<lparr>beg := 5, fend := 15\<rparr>)
   \<and> beg (Filth\<lparr>beg := 5, fend := 15\<rparr>) \<le> fend (Filth\<lparr>beg := 0, fend := 10\<rparr>)
   \<and> (\<exists>m. merge_filths [Filth\<lparr>beg := 5, fend := 15\<rparr>, Filth\<lparr>beg := 0, fend := 10\<rparr>] = Inr [m]
          \<and> beg m = 0 \<and> fend m = 15)
   \<and> [Filth\<lparr>beg := 5, fend := 15\<rparr>, Filth\<lparr>beg := 0, fend := 10\<rparr>] \<noteq> []
   \<and> list_all (\<lambda>f. document_name f = None)
         [Filth\<lparr>beg := 5, fend := 15\<rparr>, Filth\<lparr>beg := 0, fend := 10\<rparr>]
   \<and> (\<exists>x xs. sort_filths [Filth\<lparr>beg := 5, fend := 15\<rparr>, Filth\<lparr>beg := 0, fend := 10\<rparr>] = x # xs
          \<and> merge_filths [Filth\<lparr>beg := 5, fend := 15\<rparr>, Filth\<lparr>beg := 0, fend := 10\<rparr>]
              = Inr (merge_loop x xs))"
  using merge_filths_overlapping_pair
    [of "Filth\<lparr>beg := 5, fend := 15\<rparr>" "Filth\<lparr>beg := 0, fend := 10\<rparr>"
        "[Filth\<lparr>beg := 5, fend := 15\<rparr>, Filth\<lparr>beg := 0, fend := 10\<rparr>]" None]
  by (simp add: Filth_def)

text \<open>
  The claim as it stands asks only \<open>a.end >= b.begin\<close>. With \<open>a = [10, 12)\<close> and
  \<open>b = [0, 5)\<close> that holds, the spans are apart, and the merge keeps both.
\<close>

theorem merge_filths_pair_counterexample:
  "document_name (Filth\<lparr>beg := 10, fend := 12\<rparr>) = document_name (Filth\<lparr>beg := 0, fend := 5\<rparr>)
   \<and> beg (Filth\<lparr>beg := 0, fend := 5\<rparr>) \<le> fend (Filth\<lparr>beg := 10, fend := 12\<rparr>)
   \<and> merge_filths [Filth\<lparr>beg := 10, fend := 12\<rparr>, Filth\<lparr>beg := 0, fend := 5\<rparr>]
        = Inr [Filth\<lparr>beg := 0, fend := 5\<rparr>, Filth\<lparr>beg := 10, fend := 12\<rparr>]"
  by (simp add: Filth_def merge_filths_def document_names_def named_documents_def
        merge_document_def sort_filths_def sort_key_of_def str_document_name_def)

subsection \<open>The invariant of the detector registry\<close>














text \<open>
  Claim C9 fails on the code. A value that is neither a type, nor a \<open>Detector\<close>, nor a
  string passes every test of \<open>add_detector\<close>, which has no last \<open>else\<close>: the call
  returns, raises nothing and leaves the scrubber as it was.
\<close>

theorem add_detector_other_value: "add_detector cat AOther s = (None, s)"
  by (simp add: add_detector_def)

text \<open>
  Claim C10. For every string that is not the name of a registered detector,
  \<open>remove_detector\<close> raises \<open>KeyError\<close>, and the scrubber stays as it was.
\<close>

theorem remove_detector_absent:
  "n \<notin> set (map fst (detectors s)) \<longrightarrow> remove_detector (AStr n) s = (Some (KeyError n), s)"
  by (simp add: remove_detector_def pop_detector_def dict_pop_def)

text \<open>The theorem at the scrubber with no detector.\<close>

theorem remove_detector_absent_witness:
  "''email'' \<notin> set (map fst (detectors empty_scrubber))
   \<and> remove_detector (AStr ''email'') empty_scrubber = (Some (KeyError ''email''), empty_scrubber)"
  using remove_detector_absent [of "''email''" empty_scrubber]
  by (simp add: empty_scrubber_def)

subsection \<open>The merge as a total function\<close>

lemma named_documents_set: "set (named_documents fl) = {n. Some n \<in> document_name ` set fl}"
  by (auto simp: named_documents_def split: option.splits)

lemma named_mem: "Some n \<in> set (document_names fl) \<longleftrightarrow> (\<exists>f\<in>set fl. document_name f = Some n)"
proof -
  have "n \<in> set (named_documents fl) \<longleftrightarrow> (\<exists>f\<in>set fl. document_name f = Some n)"
    unfolding named_documents_set by (simp add: image_iff) metis
  then show ?thesis
    by (simp add: document_names_def image_iff)
qed

lemma none_mem: "None \<in> set (document_names fl) \<longleftrightarrow> (\<exists>f\<in>set fl. document_name f = None)"
proof (cases "None \<in> set (map document_name fl)")
  case True
  then have "\<exists>f\<in>set fl. document_name f = None" by (metis (no_types) imageE list.set_map)
  then show ?thesis using True by (simp add: document_names_def del: set_map)
next
  case False
  then have n: "\<not> (\<exists>f\<in>set fl. document_name f = None)" by (metis (no_types) image_eqI list.set_map)
  have "None \<notin> set (map Some (named_documents fl))" by auto
  then show ?thesis using False n by (simp add: document_names_def del: set_map)
qed

lemma document_names_mem: "d \<in> set (document_names fl) \<longleftrightarrow> (\<exists>f\<in>set fl. document_name f = d)"
  by (cases d) (simp_all only: named_mem none_mem)

lemma document_names_nonempty_filter:
  assumes "dn \<in> set (document_names fl)"
  shows "filter (\<lambda>f. document_name f = dn) fl \<noteq> []"
  using assms unfolding document_names_mem by (simp add: filter_empty_conv)

lemma sort_filths_Nil_iff: "sort_filths fl = [] \<longleftrightarrow> fl = []"
  by (metis length_0_conv length_sort sort_filths_def)

lemma merge_document_total:
  assumes "dn \<in> set (document_names fl)"
  shows "merge_document fl dn = Inr (merged_document fl dn)"
  using document_names_nonempty_filter[OF assms]
  by (auto simp: merge_document_def merged_document_def sort_filths_Nil_iff split: list.splits)

lemma merge_documents_total:
  "set dns \<subseteq> set (document_names fl) \<Longrightarrow>
   merge_documents fl dns = Inr (concat (map (merged_document fl) dns))"
  by (induction dns) (auto simp: merge_document_total)

lemma merge_filths_total: "merge_filths fl = Inr (merged fl)"
proof (cases "fl = []")
  case True
  then show ?thesis by (simp add: merge_filths_def merged_def document_names_def named_documents_def)
next
  case False
  then show ?thesis by (simp add: merge_filths_def merged_def merge_documents_total)
qed

lemma merge_loop_document:
  "document_name f = d \<Longrightarrow> \<forall>g\<in>set rest. document_name g = d \<Longrightarrow>
   \<forall>g\<in>set (merge_loop f rest). document_name g = d"
  by (induction f rest rule: merge_loop.induct) (auto simp: merge_def)

lemma merged_document_name: "\<forall>g\<in>set (merged_document fl d). document_name g = d"
proof (cases "sort_filths (filter (\<lambda>f. document_name f = d) fl)")
  case Nil then show ?thesis by (simp add: merged_document_def)
next
  case (Cons x xs)
  have "set (x # xs) = set (filter (\<lambda>f. document_name f = d) fl)"
    using Cons by (metis set_sort sort_filths_def)
  then have "document_name x = d" "\<forall>g\<in>set xs. document_name g = d" by auto
  then show ?thesis using Cons merge_loop_document[of x d xs] by (simp add: merged_document_def)
qed

lemma document_before_refl: "document_before d d"
  by (simp add: document_before_def split: option.splits)

lemma document_names_sorted: "sorted_wrt document_before (document_names fl)"
proof -
  have "sorted_wrt (\<le>) (named_documents fl)" by (simp add: named_documents_def)
  then have "sorted_wrt document_before (map Some (named_documents fl))"
    by (simp add: sorted_wrt_map document_before_def)
  then show ?thesis by (auto simp: document_names_def document_before_def)
qed

lemma sorted_wrt_concat_blocks:
  assumes "sorted_wrt R ds" "\<And>d. R d d"
    and "\<And>d g. d \<in> set ds \<Longrightarrow> g \<in> set (B d) \<Longrightarrow> k g = d"
  shows "sorted_wrt (\<lambda>a b. R (k a) (k b)) (concat (map B ds))"
  using assms(1,3)
proof (induction ds)
  case Nil then show ?case by simp
next
  case (Cons d ds)
  have kd: "\<And>g. g \<in> set (B d) \<Longrightarrow> k g = d" using Cons.prems(2)[of d] by simp
  have blk: "sorted_wrt (\<lambda>a b. R (k a) (k b)) (B d)"
    unfolding sorted_wrt_iff_nth_less using kd assms(2) by simp
  have s: "sorted_wrt R ds" and c: "\<And>e. e \<in> set ds \<Longrightarrow> R d e"
    using Cons.prems(1) by simp_all
  have rest: "sorted_wrt (\<lambda>a b. R (k a) (k b)) (concat (map B ds))"
  proof (rule Cons.IH[OF s])
    fix e g assume "e \<in> set ds" "g \<in> set (B e)"
    then show "k g = e" using Cons.prems(2)[of e g] by simp
  qed
  have cross: "R (k x) (k y)" if h1: "x \<in> set (B d)" and h2: "y \<in> set (concat (map B ds))" for x y
  proof -
    obtain e where e: "e \<in> set ds" "y \<in> set (B e)" using h2 by auto
    have "k y = e" using Cons.prems(2)[of e y] e by simp
    then show ?thesis using kd[OF h1] c[OF e(1)] by simp
  qed
  have "concat (map B (d # ds)) = B d @ concat (map B ds)" by simp
  then show ?case using blk rest cross by (simp only: sorted_wrt_append) blast
qed

lemma merged_documents_sorted:
  "sorted_wrt (\<lambda>a b. document_before (document_name a) (document_name b)) (merged fl)"
  unfolding merged_def
  using sorted_wrt_concat_blocks
    [where R = document_before and k = document_name and B = "merged_document fl"
       and ds = "document_names fl"]
  using document_names_sorted[of fl] document_before_refl merged_document_name[of fl]
  by blast

subsection \<open>The order of the sort and of the merged documents\<close>

lemma sort_key_of_le:
  "sort_key_of a \<le> sort_key_of b \<longleftrightarrow>
     str_document_name (document_name a) < str_document_name (document_name b)
     \<or> (str_document_name (document_name a) = str_document_name (document_name b)
        \<and> (beg a < beg b \<or> (beg a = beg b \<and> fend b \<le> fend a)))"
  by (auto simp: sort_key_of_def)

lemma sort_filths_sorted: "sorted (map sort_key_of (sort_filths fl))"
  by (simp add: sort_filths_def)

lemma sort_filths_longer_first:
  assumes "i < j" "j < length fl"
    and "str_document_name (document_name (sort_filths fl ! i))
         = str_document_name (document_name (sort_filths fl ! j))"
    and "beg (sort_filths fl ! i) = beg (sort_filths fl ! j)"
  shows "fend (sort_filths fl ! j) \<le> fend (sort_filths fl ! i)"
proof -
  have "sorted_wrt (\<lambda>a b. sort_key_of a \<le> sort_key_of b) (sort_filths fl)"
    using sort_filths_sorted[of fl] by (simp add: sorted_map)
  moreover have "j < length (sort_filths fl)" using assms(2) by (simp add: sort_filths_def)
  ultimately have "sort_key_of (sort_filths fl ! i) \<le> sort_key_of (sort_filths fl ! j)"
    using assms(1) by (simp add: sorted_wrt_iff_nth_less)
  then show ?thesis using assms(3,4) by (simp add: sort_key_of_le)
qed

text \<open>
  Claim C3, amended. The span sort \<open>_sort_filths\<close> orders every list by the key
  \<open>(str(document_name), begin, -end)\<close>, compared lexicographically, and is stable: it
  permutes the list, and keeps the order of spans with one key. So two spans of one
  document key that start at the same begin place the longer one first. The document
  key of a span without document name is the string \<open>None\<close>, compared with the names
  as any string is: the sort itself does not place such a span before every named one.
  It is the merge whose output lists the spans without document name before those of
  every named document, and the named documents in the lexicographic order of their
  names.
\<close>

theorem sort_filths_order:
  "sorted (map sort_key_of (sort_filths fl))
   \<and> mset (sort_filths fl) = mset fl
   \<and> filter (\<lambda>f. sort_key_of f = k) (sort_filths fl) = filter (\<lambda>f. sort_key_of f = k) fl
   \<and> (sort_key_of a \<le> sort_key_of b \<longleftrightarrow>
        str_document_name (document_name a) < str_document_name (document_name b)
        \<or> (str_document_name (document_name a) = str_document_name (document_name b)
           \<and> (beg a < beg b \<or> (beg a = beg b \<and> fend b \<le> fend a))))
   \<and> str_document_name None = ''None''
   \<and> str_document_name (Some n) = n
   \<and> (i < j \<and> j < length fl
        \<and> str_document_name (document_name (sort_filths fl ! i))
            = str_document_name (document_name (sort_filths fl ! j))
        \<and> beg (sort_filths fl ! i) = beg (sort_filths fl ! j)
      \<longrightarrow> fend (sort_filths fl ! j) \<le> fend (sort_filths fl ! i))
   \<and> (\<exists>out. merge_filths fl = Inr out
          \<and> sorted_wrt (\<lambda>x y. document_before (document_name x) (document_name y)) out)
   \<and> document_before None d
   \<and> \<not> document_before (Some n) None
   \<and> (document_before (Some n) (Some m) \<longleftrightarrow> n \<le> m)"
proof -
  have 1: "sorted (map sort_key_of (sort_filths fl))" by (rule sort_filths_sorted)
  have 2: "mset (sort_filths fl) = mset fl" by (simp add: sort_filths_def)
  have 3: "filter (\<lambda>f. sort_key_of f = k) (sort_filths fl) = filter (\<lambda>f. sort_key_of f = k) fl"
    unfolding sort_filths_def by (rule sort_key_stable)
  have 4: "\<exists>out. merge_filths fl = Inr out
          \<and> sorted_wrt (\<lambda>x y. document_before (document_name x) (document_name y)) out"
    using merge_filths_total[of fl] merged_documents_sorted[of fl] by blast
  have 5: "document_before None d" "\<not> document_before (Some n) None"
    "document_before (Some n) (Some m) \<longleftrightarrow> n \<le> m"
    by (simp_all add: document_before_def)
  have 6: "str_document_name None = ''None''" "str_document_name (Some n) = n"
    by (simp_all add: str_document_name_def)
  show ?thesis
    using 1 2 3 4 5 6 sort_key_of_le[of a b] sort_filths_longer_first[of i j fl]
    by blast
qed

text \<open>
  The theorem at the example list: the span of the unnamed document sorts first here
  (\<open>None\<close> is before \<open>a\<close>), the two spans of \<open>a\<close> that start at 0 place \<open>[0, 9)\<close>
  before \<open>[0, 5)\<close>, and the merge lists the unnamed document, then \<open>a\<close>, then \<open>b\<close>.
\<close>

theorem sort_filths_order_witness:
  "sort_filths example_filths
     = [Filth\<lparr>beg := 4, fend := 6\<rparr>,
        Filth\<lparr>beg := 0, fend := 9, document_name := Some ''a''\<rparr>,
        Filth\<lparr>beg := 0, fend := 5, document_name := Some ''a''\<rparr>,
        Filth\<lparr>beg := 0, fend := 3, document_name := Some ''b''\<rparr>]
   \<and> sorted (map sort_key_of (sort_filths example_filths))
   \<and> (1 :: nat) < 2 \<and> (2 :: nat) < length example_filths
   \<and> str_document_name (document_name (sort_filths example_filths ! 1))
       = str_document_name (document_name (sort_filths example_filths ! 2))
   \<and> beg (sort_filths example_filths ! 1) = beg (sort_filths example_filths ! 2)
   \<and> fend (sort_filths example_filths ! 2) \<le> fend (sort_filths example_filths ! 1)
   \<and> merge_filths example_filths
       = Inr [Filth\<lparr>beg := 4, fend := 6\<rparr>,
              Filth\<lparr>beg := 0, fend := 9, document_name := Some ''a''\<rparr>,
              Filth\<lparr>beg := 0, fend := 3, document_name := Some ''b''\<rparr>]
   \<and> (\<exists>out. merge_filths example_filths = Inr out
          \<and> sorted_wrt (\<lambda>x y. document_before (document_name x) (document_name y)) out)"
proof -
  have e: "sort_filths example_filths
     = [Filth\<lparr>beg := 4, fend := 6\<rparr>,
        Filth\<lparr>beg := 0, fend := 9, document_name := Some ''a''\<rparr>,
        Filth\<lparr>beg := 0, fend := 5, document_name := Some ''a''\<rparr>,
        Filth\<lparr>beg := 0, fend := 3, document_name := Some ''b''\<rparr>]"
    by (simp add: example_filths_def Filth_def sort_filths_def sort_key_of_def
          str_document_name_def)
  have m: "merge_filths example_filths
       = Inr [Filth\<lparr>beg := 4, fend := 6\<rparr>,
              Filth\<lparr>beg := 0, fend := 9, document_name := Some ''a''\<rparr>,
              Filth\<lparr>beg := 0, fend := 3, document_name := Some ''b''\<rparr>]"
    by (simp add: example_filths_def Filth_def merge_filths_def document_names_def
          named_documents_def merge_document_def sort_filths_def sort_key_of_def
          str_document_name_def merge_def)
  have l: "(2 :: nat) < length example_filths" by (simp add: example_filths_def)
  show ?thesis
    using sort_filths_order [of example_filths k a b n 1 2 d m] l
    unfolding e m by (simp add: Filth_def)
qed

text \<open>
  The claim as it stands has a span without document name sort before every span of a
  named document. In the span sort, a span of the document \<open>A\<close> comes before it:
  \<open>'A' < 'None'\<close>.
\<close>

theorem sort_filths_none_counterexample:
  "document_name (Filth\<lparr>beg := 0, fend := 1\<rparr>) = None
   \<and> sort_filths [Filth\<lparr>beg := 0, fend := 1\<rparr>,
                  Filth\<lparr>beg := 0, fend := 1, document_name := Some ''A''\<rparr>]
      = [Filth\<lparr>beg := 0, fend := 1, document_name := Some ''A''\<rparr>,
         Filth\<lparr>beg := 0, fend := 1\<rparr>]"
  by (simp add: Filth_def sort_filths_def sort_key_of_def str_document_name_def)

subsection \<open>Merging spans that are apart\<close>

lemma sorted_wrt_insort_key_sym:
  assumes "\<And>a b. P a b \<Longrightarrow> P b a" "sorted_wrt P xs" "\<forall>y\<in>set xs. P x y"
  shows "sorted_wrt P (insort_key f x xs)"
  using assms(2,3)
proof (induction xs)
  case Nil then show ?case by simp
next
  case (Cons y ys)
  then show ?case using assms(1) by (auto simp: set_insort_key)
qed

lemma sorted_wrt_sort_key_sym:
  assumes "\<And>a b. P a b \<Longrightarrow> P b a" "sorted_wrt P xs"
  shows "sorted_wrt P (sort_key f xs)"
  using assms(2)
proof (induction xs)
  case Nil then show ?case by simp
next
  case (Cons x xs)
  then show ?case using sorted_wrt_insort_key_sym[of P "sort_key f xs" x f] assms(1) by simp
qed

lemma merge_loop_apart:
  "sorted_wrt (\<lambda>a b. fend a < beg b) (x # xs) \<Longrightarrow> merge_loop x xs = x # xs"
  by (induction xs arbitrary: x) auto

lemma ordered_apart:
  assumes key: "sorted (map sort_key_of s)"
    and ap: "sorted_wrt apart s"
    and wf: "\<forall>f\<in>set s. beg f \<le> fend f"
    and doc: "\<forall>f\<in>set s. document_name f = d"
  shows "sorted_wrt (\<lambda>a b. fend a < beg b) s"
  unfolding sorted_wrt_iff_nth_less
proof (intro allI impI)
  fix i j assume ij: "i < j" "j < length s"
  have k: "sort_key_of (s ! i) \<le> sort_key_of (s ! j)"
    using key ij by (simp add: sorted_map sorted_wrt_iff_nth_less)
  have a: "apart (s ! i) (s ! j)" using ap ij by (simp add: sorted_wrt_iff_nth_less)
  have w: "beg (s ! j) \<le> fend (s ! j)" using wf ij by simp
  have "document_name (s ! i) = document_name (s ! j)" using doc ij by simp
  then have "beg (s ! i) \<le> beg (s ! j)" using k by (auto simp: sort_key_of_le)
  then show "fend (s ! i) < beg (s ! j)" using a w by (auto simp: apart_def)
qed

lemma merge_filths_apart:
  assumes doc: "\<forall>f\<in>set fl. document_name f = d"
    and wf: "\<forall>f\<in>set fl. beg f \<le> fend f"
    and ap: "sorted_wrt apart fl"
  shows "merge_filths fl = Inr (sort_filths fl)"
    and "sorted_wrt (\<lambda>a b. fend a < beg b) (sort_filths fl)"
proof -
  have sym: "\<And>a b. apart a b \<Longrightarrow> apart b a" by (auto simp: apart_def)
  have ap': "sorted_wrt apart (sort_filths fl)"
    unfolding sort_filths_def by (rule sorted_wrt_sort_key_sym[OF sym ap])
  have wf': "\<forall>f\<in>set (sort_filths fl). beg f \<le> fend f" using wf by (simp add: sort_filths_def)
  have doc': "\<forall>f\<in>set (sort_filths fl). document_name f = d"
    using doc by (simp add: sort_filths_def)
  show o: "sorted_wrt (\<lambda>a b. fend a < beg b) (sort_filths fl)"
    by (rule ordered_apart[OF sort_filths_sorted ap' wf' doc'])
  show "merge_filths fl = Inr (sort_filths fl)"
  proof (cases "fl = []")
    case True then show ?thesis by (simp add: merge_filths_def sort_filths_def)
  next
    case False
    obtain x xs where s: "sort_filths fl = x # xs" "merge_filths fl = Inr (merge_loop x xs)"
      using merge_filths_single_document[OF False doc] by blast
    then show ?thesis using merge_loop_apart[of x xs] o by simp
  qed
qed

lemma sort_filths_id:
  assumes doc: "\<forall>f\<in>set fl. document_name f = d"
    and o: "sorted_wrt (\<lambda>a b. fend a < beg b) fl"
    and wf: "\<forall>f\<in>set fl. beg f \<le> fend f"
  shows "sort_filths fl = fl"
proof -
  have "sorted_wrt (\<lambda>a b. sort_key_of a \<le> sort_key_of b) fl"
    unfolding sorted_wrt_iff_nth_less
  proof (intro allI impI)
    fix i j assume ij: "i < j" "j < length fl"
    have "fend (fl ! i) < beg (fl ! j)" using o ij by (simp add: sorted_wrt_iff_nth_less)
    moreover have "beg (fl ! i) \<le> fend (fl ! i)" using wf ij by simp
    moreover have "document_name (fl ! i) = document_name (fl ! j)" using doc ij by simp
    ultimately show "sort_key_of (fl ! i) \<le> sort_key_of (fl ! j)"
      by (simp add: sort_key_of_le)
  qed
  then show ?thesis unfolding sort_filths_def by (simp add: sorted_map sort_key_id_if_sorted)
qed

lemma sorted_beg_apart:
  assumes sb: "sorted (map beg fl)"
    and ap: "sorted_wrt apart fl"
    and wf: "\<forall>f\<in>set fl. beg f \<le> fend f"
  shows "sorted_wrt (\<lambda>a b. fend a < beg b) fl"
  unfolding sorted_wrt_iff_nth_less
proof (intro allI impI)
  fix i j assume ij: "i < j" "j < length fl"
  have "beg (fl ! i) \<le> beg (fl ! j)" using sb ij by (simp add: sorted_map sorted_wrt_iff_nth_less)
  moreover have "apart (fl ! i) (fl ! j)" using ap ij by (simp add: sorted_wrt_iff_nth_less)
  moreover have "beg (fl ! j) \<le> fend (fl ! j)" using wf ij by simp
  ultimately show "fend (fl ! i) < beg (fl ! j)" by (auto simp: apart_def)
qed

lemma apart_sorted_beg:
  assumes o: "sorted_wrt (\<lambda>a b. fend a < beg b) s" and wf: "\<forall>f\<in>set s. beg f \<le> fend f"
  shows "sorted (map beg s)"
proof -
  have "sorted_wrt (\<lambda>a b. beg a \<le> beg b) s"
    unfolding sorted_wrt_iff_nth_less
  proof (intro allI impI)
    fix i j assume ij: "i < j" "j < length s"
    have "fend (s ! i) < beg (s ! j)" using o ij by (simp add: sorted_wrt_iff_nth_less)
    moreover have "beg (s ! i) \<le> fend (s ! i)" using wf ij by simp
    ultimately show "beg (s ! i) \<le> beg (s ! j)" by simp
  qed
  then show ?thesis by (simp add: sorted_map)
qed

text \<open>
  Claim C6, amended. For every list of spans of one document, each with
  \<open>begin <= end\<close>, that are pairwise strictly apart (for every two of them, one ends
  before the other begins: \<open>a.end < b.begin\<close> or \<open>b.end < a.begin\<close>), the merge
  returns the sorted list: as many spans as the input, each span preserved, ordered by
  begin. Merging that output again returns it unchanged, and a list that was already
  sorted by begin is returned as it is. Merging the empty list yields the empty list
  and raises nothing.
\<close>

theorem merge_filths_separated:
  "(list_all (\<lambda>f. document_name f = d) fl \<and> list_all (\<lambda>f. beg f \<le> fend f) fl
      \<and> sorted_wrt apart fl
    \<longrightarrow> (\<exists>out. merge_filths fl = Inr out
            \<and> length out = length fl \<and> mset out = mset fl \<and> sorted (map beg out)
            \<and> out = sort_filths fl
            \<and> merge_filths out = Inr out
            \<and> (sorted (map beg fl) \<longrightarrow> out = fl)))
   \<and> merge_filths [] = Inr []"
proof (intro conjI impI)
  show "merge_filths [] = Inr []" by (simp add: merge_filths_def)
next
  assume h: "list_all (\<lambda>f. document_name f = d) fl \<and> list_all (\<lambda>f. beg f \<le> fend f) fl
      \<and> sorted_wrt apart fl"
  then have doc: "\<forall>f\<in>set fl. document_name f = d" and wf: "\<forall>f\<in>set fl. beg f \<le> fend f"
    and ap: "sorted_wrt apart fl" by (simp_all add: list_all_iff)
  let ?s = "sort_filths fl"
  have m: "merge_filths fl = Inr ?s" and o: "sorted_wrt (\<lambda>a b. fend a < beg b) ?s"
    using merge_filths_apart[OF doc wf ap] by simp_all
  have set_s: "set ?s = set fl" by (simp add: sort_filths_def)
  have doc': "\<forall>f\<in>set ?s. document_name f = d" and wf': "\<forall>f\<in>set ?s. beg f \<le> fend f"
    using doc wf set_s by simp_all
  have ap': "sorted_wrt apart ?s"
    using o by (rule sorted_wrt_mono_rel[rotated]) (simp add: apart_def)
  have id: "sort_filths ?s = ?s" by (rule sort_filths_id[OF doc' o wf'])
  have idem: "merge_filths ?s = Inr ?s"
    using merge_filths_apart(1)[OF doc' wf' ap'] id by simp
  have sb: "sorted (map beg ?s)" by (rule apart_sorted_beg[OF o wf'])
  have same: "?s = fl" if "sorted (map beg fl)"
    by (rule sort_filths_id[OF doc sorted_beg_apart[OF that ap wf] wf])
  show "\<exists>out. merge_filths fl = Inr out
            \<and> length out = length fl \<and> mset out = mset fl \<and> sorted (map beg out)
            \<and> out = sort_filths fl
            \<and> merge_filths out = Inr out
            \<and> (sorted (map beg fl) \<longrightarrow> out = fl)"
    using m idem sb same by (auto simp: sort_filths_def)
qed

text \<open>The theorem at the spans \<open>[6, 9)\<close> and \<open>[0, 5)\<close>, given in that order.\<close>

theorem merge_filths_separated_witness:
  "list_all (\<lambda>f. document_name f = None) [Filth\<lparr>beg := 6, fend := 9\<rparr>, Filth\<lparr>beg := 0, fend := 5\<rparr>]
   \<and> list_all (\<lambda>f. beg f \<le> fend f) [Filth\<lparr>beg := 6, fend := 9\<rparr>, Filth\<lparr>beg := 0, fend := 5\<rparr>]
   \<and> sorted_wrt apart [Filth\<lparr>beg := 6, fend := 9\<rparr>, Filth\<lparr>beg := 0, fend := 5\<rparr>]
   \<and> merge_filths [Filth\<lparr>beg := 6, fend := 9\<rparr>, Filth\<lparr>beg := 0, fend := 5\<rparr>]
       = Inr [Filth\<lparr>beg := 0, fend := 5\<rparr>, Filth\<lparr>beg := 6, fend := 9\<rparr>]
   \<and> merge_filths [Filth\<lparr>beg := 0, fend := 5\<rparr>, Filth\<lparr>beg := 6, fend := 9\<rparr>]
       = Inr [Filth\<lparr>beg := 0, fend := 5\<rparr>, Filth\<lparr>beg := 6, fend := 9\<rparr>]
   \<and> sorted (map beg [Filth\<lparr>beg := 0, fend := 5\<rparr>, Filth\<lparr>beg := 6, fend := 9\<rparr>])"
  using merge_filths_separated
    [of None "[Filth\<lparr>beg := 6, fend := 9\<rparr>, Filth\<lparr>beg := 0, fend := 5\<rparr>]"]
  by (simp add: apart_def Filth_def sort_filths_def sort_key_of_def str_document_name_def)

text \<open>
  The claim as it stands asks for disjoint (non-overlapping) spans only. The spans
  \<open>[0, 5)\<close> and \<open>[5, 10)\<close> share no offset and are sorted, and the merge, which
  also absorbs a span that starts where the running one ends, returns the one span
  \<open>[0, 10)\<close>.
\<close>

theorem merge_filths_touching_counterexample:
  "document_name (Filth\<lparr>beg := 0, fend := 5\<rparr>) = document_name (Filth\<lparr>beg := 5, fend := 10\<rparr>)
   \<and> fend (Filth\<lparr>beg := 0, fend := 5\<rparr>) \<le> beg (Filth\<lparr>beg := 5, fend := 10\<rparr>)
   \<and> sorted (map beg [Filth\<lparr>beg := 0, fend := 5\<rparr>, Filth\<lparr>beg := 5, fend := 10\<rparr>])
   \<and> merge_filths [Filth\<lparr>beg := 0, fend := 5\<rparr>, Filth\<lparr>beg := 5, fend := 10\<rparr>]
       = Inr [Filth\<lparr>beg := 0, fend := 10\<rparr>]"
  by (simp add: Filth_def merge_filths_def document_names_def named_documents_def
        merge_document_def sort_filths_def sort_key_of_def str_document_name_def merge_def)

subsection \<open>Reconstruction of the text\<close>

lemma replace_loop_rebuild:
  "concat (replace_loop rw text f fl) = rebuild rw text (fend f) fl"
  by (induction fl arbitrary: f) auto

lemma sort_filths_precedes:
  assumes doc: "\<forall>f\<in>set fl. document_name f = d"
    and wf: "\<forall>f\<in>set fl. beg f \<le> fend f"
    and o: "sorted_wrt precedes fl"
  shows "sort_filths fl = fl"
proof -
  have "sorted_wrt (\<lambda>a b. sort_key_of a \<le> sort_key_of b) fl"
    unfolding sorted_wrt_iff_nth_less
  proof (intro allI impI)
    fix i j assume ij: "i < j" "j < length fl"
    have "precedes (fl ! i) (fl ! j)" using o ij by (simp add: sorted_wrt_iff_nth_less)
    moreover have "beg (fl ! i) \<le> fend (fl ! i)" using wf ij by simp
    moreover have "document_name (fl ! i) = document_name (fl ! j)" using doc ij by simp
    ultimately show "sort_key_of (fl ! i) \<le> sort_key_of (fl ! j)"
      by (auto simp: sort_key_of_le precedes_def)
  qed
  then show ?thesis unfolding sort_filths_def by (simp add: sorted_map sort_key_id_if_sorted)
qed

text \<open>
  Claim C2, amended. For every text and every list of spans of one document (the
  document asked for, if one is), each with \<open>begin <= end\<close>, that is sorted ascending by
  begin and non-overlapping, and in which no non-empty span comes after an empty span at
  the same begin, \<open>_replace_text\<close> returns exactly the walk of the specification:
  for each span in order the passthrough \<open>text[cursor:span.begin]\<close>, then the fixed
  replacement of the span when it is set and the computed one otherwise, the cursor
  moved to the end of the span, and \<open>text[cursor:]\<close> after the last span; the cursor
  starts at 0.
\<close>

theorem replace_text_rebuild:
  "list_all (\<lambda>f. document_name f = d) fl \<and> (dn = None \<or> dn = d)
   \<and> list_all (\<lambda>f. beg f \<le> fend f) fl \<and> sorted_wrt precedes fl
   \<longrightarrow> replace_text replace_with text fl dn = rebuild replace_with text 0 fl"
proof
  assume h: "list_all (\<lambda>f. document_name f = d) fl \<and> (dn = None \<or> dn = d)
   \<and> list_all (\<lambda>f. beg f \<le> fend f) fl \<and> sorted_wrt precedes fl"
  then have doc: "\<forall>f\<in>set fl. document_name f = d" and wf: "\<forall>f\<in>set fl. beg f \<le> fend f"
    and o: "sorted_wrt precedes fl" and dn: "dn = None \<or> dn = d"
    by (simp_all add: list_all_iff)
  have "(if dn \<noteq> None then filter (\<lambda>f. document_name f = dn) fl else fl) = fl"
    using dn doc by (auto simp: filter_id_conv)
  then show "replace_text replace_with text fl dn = rebuild replace_with text 0 fl"
    using sort_filths_precedes[OF doc wf o]
    by (simp add: replace_text_def replace_loop_rebuild Filth_def)
qed

text \<open>
  The theorem on the text of scenario 1, with a computed replacement for the name and a
  fixed one for the address.
\<close>

theorem replace_text_rebuild_witness:
  "list_all (\<lambda>f. document_name f = None)
     [Filth\<lparr>beg := 8, fend := 16, kinds := [''NAME'']\<rparr>,
      Filth\<lparr>beg := 20, fend := 36, replacement_string := Some ''<email>''\<rparr>]
   \<and> list_all (\<lambda>f. beg f \<le> fend f)
     [Filth\<lparr>beg := 8, fend := 16, kinds := [''NAME'']\<rparr>,
      Filth\<lparr>beg := 20, fend := 36, replacement_string := Some ''<email>''\<rparr>]
   \<and> sorted_wrt precedes
     [Filth\<lparr>beg := 8, fend := 16, kinds := [''NAME'']\<rparr>,
      Filth\<lparr>beg := 20, fend := 36, replacement_string := Some ''<email>''\<rparr>]
   \<and> rebuild placeholder ''Contact John Doe or john@example.com'' 0
     [Filth\<lparr>beg := 8, fend := 16, kinds := [''NAME'']\<rparr>,
      Filth\<lparr>beg := 20, fend := 36, replacement_string := Some ''<email>''\<rparr>]
     = ''Contact {{NAME}} or <email>''
   \<and> replace_text placeholder ''Contact John Doe or john@example.com''
     [Filth\<lparr>beg := 8, fend := 16, kinds := [''NAME'']\<rparr>,
      Filth\<lparr>beg := 20, fend := 36, replacement_string := Some ''<email>''\<rparr>] None
     = ''Contact {{NAME}} or <email>''"
proof -
  have r: "rebuild placeholder ''Contact John Doe or john@example.com'' 0
     [Filth\<lparr>beg := 8, fend := 16, kinds := [''NAME'']\<rparr>,
      Filth\<lparr>beg := 20, fend := 36, replacement_string := Some ''<email>''\<rparr>]
     = ''Contact {{NAME}} or <email>''"
    by (simp add: Filth_def slice_def slice_from_def py_index_def placeholder_def)
  show ?thesis
    using replace_text_rebuild
      [of None "[Filth\<lparr>beg := 8, fend := 16, kinds := [''NAME'']\<rparr>,
      Filth\<lparr>beg := 20, fend := 36, replacement_string := Some ''<email>''\<rparr>]" None
        placeholder "''Contact John Doe or john@example.com''"] r
    by (simp add: precedes_def Filth_def)
qed

text \<open>
  The claim as it stands covers every sorted, non-overlapping list. The empty span
  \<open>[3, 3)\<close> followed by \<open>[3, 5)\<close> is one; \<open>_replace_text\<close> sorts the longer span
  first, so it emits the replacements in the other order and, the cursor going back to
  3, the text \<open>de\<close> after them.
\<close>

theorem replace_text_empty_span_counterexample:
  "sorted (map beg [Filth\<lparr>beg := 3, fend := 3, replacement_string := Some ''X''\<rparr>,
                    Filth\<lparr>beg := 3, fend := 5, replacement_string := Some ''Y''\<rparr>])
   \<and> beg (Filth\<lparr>beg := 3, fend := 3, replacement_string := Some ''X''\<rparr>)
       \<le> fend (Filth\<lparr>beg := 3, fend := 3, replacement_string := Some ''X''\<rparr>)
   \<and> fend (Filth\<lparr>beg := 3, fend := 3, replacement_string := Some ''X''\<rparr>)
       \<le> beg (Filth\<lparr>beg := 3, fend := 5, replacement_string := Some ''Y''\<rparr>)
   \<and> rebuild placeholder ''abcdefg'' 0
        [Filth\<lparr>beg := 3, fend := 3, replacement_string := Some ''X''\<rparr>,
         Filth\<lparr>beg := 3, fend := 5, replacement_string := Some ''Y''\<rparr>] = ''abcXYfg''
   \<and> replace_text placeholder ''abcdefg''
        [Filth\<lparr>beg := 3, fend := 3, replacement_string := Some ''X''\<rparr>,
         Filth\<lparr>beg := 3, fend := 5, replacement_string := Some ''Y''\<rparr>] None = ''abcYXdefg''"
  by (simp add: Filth_def replace_text_def sort_filths_def sort_key_of_def
        str_document_name_def slice_def slice_from_def py_index_def)

subsection \<open>The pipeline\<close>

text \<open>
  What \<open>iter_filth\<close> and \<open>clean_documents\<close> compute: they raise exactly when a
  detector yields a value that is not a \<open>Filth\<close>; the merge inside never raises.
\<close>

lemma collect_yielded_eq:
  "collect_yielded ys =
     (if NotFilth \<in> set ys then Inl (TypeError ''iter_filth must always yield Filth'')
      else Inr (yielded_filths ys))"
  by (induction ys rule: collect_yielded.induct) (auto simp: yielded_filths_def)

lemma collect_detectors_eq:
  "collect_detectors reg text dn None =
     (if yield_filth_only reg text dn then Inr (all_filths reg text dn)
      else Inl (TypeError ''iter_filth must always yield Filth''))"
  by (induction reg) (auto simp: collect_yielded_eq yield_filth_only_def all_filths_def)

lemma iter_filth_eq:
  "iter_filth s text dn True None =
     (if yield_filth_only (detectors s) text dn
      then Inr (post_process_filth_list s (merged (all_filths (detectors s) text dn)))
      else Inl (TypeError ''iter_filth must always yield Filth''))"
  by (simp add: iter_filth_def collect_detectors_eq merge_filths_total)

lemma iter_filth_named_eq:
  "iter_filth_named s named =
     (if documents_yield_filth_only s named
      then Inr (concat (map (\<lambda>item. post_process_filth_list s
                               (merged (all_filths (detectors s) (snd item) (Some (fst item)))))
                    named))
      else Inl (TypeError ''iter_filth must always yield Filth''))"
  by (induction named) (auto simp: iter_filth_eq documents_yield_filth_only_def)

lemma clean_documents_list_eq:
  "clean_documents s rw (DocList l) =
     (if documents_yield_filth_only s (enumerate_str l)
      then Inr (DocList (map (\<lambda>item. replace_text rw (snd item)
                                        (final_filths s (enumerate_str l)) (Some (fst item)))
                             (enumerate_str l)))
      else Inl (TypeError ''iter_filth must always yield Filth''))"
  by (simp add: clean_documents_def iter_filth_named_eq final_filths_def)

lemma clean_documents_dict_eq:
  "clean_documents s rw (DocDict d) =
     (if documents_yield_filth_only s d
      then Inr (DocDict (map (\<lambda>item. (fst item, replace_text rw (snd item)
                                        (final_filths s d) (Some (fst item))))
                             d))
      else Inl (TypeError ''iter_filth must always yield Filth''))"
  by (simp add: clean_documents_def iter_filth_named_eq final_filths_def)

lemma enumerate_str_length: "length (enumerate_str l) = length l"
  by (simp add: enumerate_str_def)

lemma enumerate_str_nth: "i < length l \<Longrightarrow> enumerate_str l ! i = (str_nat i, l ! i)"
  by (simp add: enumerate_str_def)



subsection \<open>Isolation of the documents of a batch\<close>

lemma replace_text_filter:
  "replace_text rw text fl (Some b)
     = replace_text rw text (filter (\<lambda>f. document_name f = Some b) fl) (Some b)"
  by (simp add: replace_text_def)

lemma map_of_rebuilt:
  "map_of (map (\<lambda>item. (fst item, g item)) d) b
     = (case map_of d b of None \<Rightarrow> None | Some text \<Rightarrow> Some (g (b, text)))"
  by (induction d) auto

text \<open>
  Claim C5. The reconstruction of a document named \<open>b\<close> depends only on the text of
  that document and on the spans whose document name is \<open>b\<close>: \<open>_replace_text\<close>
  returns the same text for two span lists that agree on the spans of \<open>b\<close>. So for two
  batches cleaned by \<open>clean_documents\<close> (by any two scrubbers), given as dicts or as
  lists, in which the document \<open>b\<close> has the same text and the lists of spans that are
  reconstructed from agree on the spans of \<open>b\<close>, the cleaned document \<open>b\<close> is the
  same, whatever the spans of the other documents are; and it is the reconstruction of
  its text from its own spans alone.
\<close>

theorem document_isolation:
  "(filter (\<lambda>f. document_name f = Some b) fl1 = filter (\<lambda>f. document_name f = Some b) fl2
      \<longrightarrow> replace_text rw text fl1 (Some b) = replace_text rw text fl2 (Some b))
   \<and> (clean_documents s1 rw (DocDict d1) = Inr (DocDict out1)
        \<and> clean_documents s2 rw (DocDict d2) = Inr (DocDict out2)
        \<and> map_of d1 b = Some text \<and> map_of d2 b = Some text
        \<and> filter (\<lambda>f. document_name f = Some b) (final_filths s1 d1)
            = filter (\<lambda>f. document_name f = Some b) (final_filths s2 d2)
      \<longrightarrow> map_of out1 b = map_of out2 b
          \<and> map_of out1 b
              = Some (replace_text rw text
                        (filter (\<lambda>f. document_name f = Some b) (final_filths s1 d1)) (Some b)))
   \<and> (clean_documents s1 rw (DocList l1) = Inr (DocList o1)
        \<and> clean_documents s2 rw (DocList l2) = Inr (DocList o2)
        \<and> i < length l1 \<and> i < length l2 \<and> l1 ! i = l2 ! i
        \<and> filter (\<lambda>f. document_name f = Some (str_nat i)) (final_filths s1 (enumerate_str l1))
            = filter (\<lambda>f. document_name f = Some (str_nat i)) (final_filths s2 (enumerate_str l2))
      \<longrightarrow> o1 ! i = o2 ! i
          \<and> o1 ! i
              = replace_text rw (l1 ! i)
                  (filter (\<lambda>f. document_name f = Some (str_nat i))
                     (final_filths s1 (enumerate_str l1)))
                  (Some (str_nat i)))"
proof (intro conjI impI)
  assume "filter (\<lambda>f. document_name f = Some b) fl1 = filter (\<lambda>f. document_name f = Some b) fl2"
  then show "replace_text rw text fl1 (Some b) = replace_text rw text fl2 (Some b)"
    using replace_text_filter[of rw "text" fl1 b] replace_text_filter[of rw "text" fl2 b] by simp
next
  assume h: "clean_documents s1 rw (DocDict d1) = Inr (DocDict out1)
        \<and> clean_documents s2 rw (DocDict d2) = Inr (DocDict out2)
        \<and> map_of d1 b = Some text \<and> map_of d2 b = Some text
        \<and> filter (\<lambda>f. document_name f = Some b) (final_filths s1 d1)
            = filter (\<lambda>f. document_name f = Some b) (final_filths s2 d2)"
  have o1: "out1 = map (\<lambda>item. (fst item, replace_text rw (snd item) (final_filths s1 d1)
                                       (Some (fst item)))) d1"
    using h by (simp add: clean_documents_dict_eq split: if_splits)
  have o2: "out2 = map (\<lambda>item. (fst item, replace_text rw (snd item) (final_filths s2 d2)
                                       (Some (fst item)))) d2"
    using h by (simp add: clean_documents_dict_eq split: if_splits)
  have m1: "map_of out1 b = Some (replace_text rw text (final_filths s1 d1) (Some b))"
    unfolding o1 map_of_rebuilt using h by simp
  have m2: "map_of out2 b = Some (replace_text rw text (final_filths s2 d2) (Some b))"
    unfolding o2 map_of_rebuilt using h by simp
  have e: "replace_text rw text (final_filths s1 d1) (Some b)
         = replace_text rw text (final_filths s2 d2) (Some b)"
    using h replace_text_filter[of rw "text" "final_filths s1 d1" b]
      replace_text_filter[of rw "text" "final_filths s2 d2" b] by simp
  show "map_of out1 b = map_of out2 b" using m1 m2 e by simp
  show "map_of out1 b
     = Some (replace_text rw text
                (filter (\<lambda>f. document_name f = Some b) (final_filths s1 d1)) (Some b))"
    using m1 replace_text_filter[of rw "text" "final_filths s1 d1" b] by simp
next
  assume h: "clean_documents s1 rw (DocList l1) = Inr (DocList o1)
        \<and> clean_documents s2 rw (DocList l2) = Inr (DocList o2)
        \<and> i < length l1 \<and> i < length l2 \<and> l1 ! i = l2 ! i
        \<and> filter (\<lambda>f. document_name f = Some (str_nat i)) (final_filths s1 (enumerate_str l1))
            = filter (\<lambda>f. document_name f = Some (str_nat i)) (final_filths s2 (enumerate_str l2))"
  have a1: "o1 = map (\<lambda>item. replace_text rw (snd item) (final_filths s1 (enumerate_str l1))
                              (Some (fst item))) (enumerate_str l1)"
    using h by (simp add: clean_documents_list_eq split: if_splits)
  have a2: "o2 = map (\<lambda>item. replace_text rw (snd item) (final_filths s2 (enumerate_str l2))
                              (Some (fst item))) (enumerate_str l2)"
    using h by (simp add: clean_documents_list_eq split: if_splits)
  have n1: "o1 ! i = replace_text rw (l1 ! i) (final_filths s1 (enumerate_str l1)) (Some (str_nat i))"
    unfolding a1 using h by (simp add: enumerate_str_length enumerate_str_nth)
  have n2: "o2 ! i = replace_text rw (l1 ! i) (final_filths s2 (enumerate_str l2)) (Some (str_nat i))"
    unfolding a2 using h by (simp add: enumerate_str_length enumerate_str_nth)
  have e: "replace_text rw (l1 ! i) (final_filths s1 (enumerate_str l1)) (Some (str_nat i))
         = replace_text rw (l1 ! i) (final_filths s2 (enumerate_str l2)) (Some (str_nat i))"
    using h replace_text_filter[of rw "l1 ! i" "final_filths s1 (enumerate_str l1)" "str_nat i"]
      replace_text_filter[of rw "l1 ! i" "final_filths s2 (enumerate_str l2)" "str_nat i"] by simp
  show "o1 ! i = o2 ! i" using n1 n2 e by simp
  show "o1 ! i = replace_text rw (l1 ! i)
                  (filter (\<lambda>f. document_name f = Some (str_nat i))
                     (final_filths s1 (enumerate_str l1)))
                  (Some (str_nat i))"
    using n1 replace_text_filter[of rw "l1 ! i" "final_filths s1 (enumerate_str l1)" "str_nat i"]
    by simp
qed

text \<open>
  The theorem on two batches that differ in the document \<open>x\<close>, which has a span in
  the first batch and none in the second, and agree on the document \<open>y\<close>.
\<close>

theorem document_isolation_witness:
  "clean_documents email_scrubber placeholder (DocDict [(''x'', ''a@b.com''), (''y'', ''c@d.org'')])
     = Inr (DocDict [(''x'', ''{{EMAIL}}''), (''y'', ''{{EMAIL}}'')])
   \<and> clean_documents email_scrubber placeholder (DocDict [(''x'', ''nothing''), (''y'', ''c@d.org'')])
     = Inr (DocDict [(''x'', ''nothing''), (''y'', ''{{EMAIL}}'')])
   \<and> map_of [(''x'', ''a@b.com''), (''y'', ''c@d.org'')] ''y'' = Some ''c@d.org''
   \<and> map_of [(''x'', ''nothing''), (''y'', ''c@d.org'')] ''y'' = Some ''c@d.org''
   \<and> final_filths email_scrubber [(''x'', ''a@b.com''), (''y'', ''c@d.org'')]
       = [\<lparr>beg = 0, fend = 7, document_name = Some ''x'', replacement_string = None,
           kinds = [''EMAIL''], detector_names = [''email'']\<rparr>,
          \<lparr>beg = 0, fend = 7, document_name = Some ''y'', replacement_string = None,
           kinds = [''EMAIL''], detector_names = [''email'']\<rparr>]
   \<and> final_filths email_scrubber [(''x'', ''nothing''), (''y'', ''c@d.org'')]
       = [\<lparr>beg = 0, fend = 7, document_name = Some ''y'', replacement_string = None,
           kinds = [''EMAIL''], detector_names = [''email'']\<rparr>]
   \<and> filter (\<lambda>f. document_name f = Some ''y'')
         (final_filths email_scrubber [(''x'', ''a@b.com''), (''y'', ''c@d.org'')])
       = filter (\<lambda>f. document_name f = Some ''y'')
           (final_filths email_scrubber [(''x'', ''nothing''), (''y'', ''c@d.org'')])
   \<and> map_of [(''x'', ''{{EMAIL}}''), (''y'', ''{{EMAIL}}'')] ''y''
       = map_of [(''x'', ''nothing''), (''y'', ''{{EMAIL}}'')] ''y''"
proof -
  have f1: "final_filths email_scrubber [(''x'', ''a@b.com''), (''y'', ''c@d.org'')]
       = [\<lparr>beg = 0, fend = 7, document_name = Some ''x'', replacement_string = None,
           kinds = [''EMAIL''], detector_names = [''email'']\<rparr>,
          \<lparr>beg = 0, fend = 7, document_name = Some ''y'', replacement_string = None,
           kinds = [''EMAIL''], detector_names = [''email'']\<rparr>]"
    by (simp add: final_filths_def post_process_filth_list_def email_scrubber_def
          email_detector_def all_filths_def yielded_filths_def merged_def merged_document_def
          document_names_def named_documents_def sort_filths_def)
  have f2: "final_filths email_scrubber [(''x'', ''nothing''), (''y'', ''c@d.org'')]
       = [\<lparr>beg = 0, fend = 7, document_name = Some ''y'', replacement_string = None,
           kinds = [''EMAIL''], detector_names = [''email'']\<rparr>]"
    by (simp add: final_filths_def post_process_filth_list_def email_scrubber_def
          email_detector_def all_filths_def yielded_filths_def merged_def merged_document_def
          document_names_def named_documents_def sort_filths_def)
  have y: "documents_yield_filth_only email_scrubber [(''x'', ''a@b.com''), (''y'', ''c@d.org'')]"
    "documents_yield_filth_only email_scrubber [(''x'', ''nothing''), (''y'', ''c@d.org'')]"
    by (simp_all add: documents_yield_filth_only_def yield_filth_only_def email_scrubber_def
          email_detector_def)
  have c1: "clean_documents email_scrubber placeholder
              (DocDict [(''x'', ''a@b.com''), (''y'', ''c@d.org'')])
     = Inr (DocDict [(''x'', ''{{EMAIL}}''), (''y'', ''{{EMAIL}}'')])"
    by (simp add: clean_documents_dict_eq y f1 replace_text_def sort_filths_def Filth_def
          slice_def slice_from_def py_index_def placeholder_def)
  have c2: "clean_documents email_scrubber placeholder
              (DocDict [(''x'', ''nothing''), (''y'', ''c@d.org'')])
     = Inr (DocDict [(''x'', ''nothing''), (''y'', ''{{EMAIL}}'')])"
    by (simp add: clean_documents_dict_eq y f2 replace_text_def sort_filths_def Filth_def
          slice_def slice_from_def py_index_def placeholder_def)
  have e: "filter (\<lambda>f. document_name f = Some ''y'')
         (final_filths email_scrubber [(''x'', ''a@b.com''), (''y'', ''c@d.org'')])
       = filter (\<lambda>f. document_name f = Some ''y'')
           (final_filths email_scrubber [(''x'', ''nothing''), (''y'', ''c@d.org'')])"
    by (simp add: f1 f2)
  have "map_of [(''x'', ''{{EMAIL}}''), (''y'', ''{{EMAIL}}'')] ''y''
       = map_of [(''x'', ''nothing''), (''y'', ''{{EMAIL}}'')] ''y''"
    using document_isolation
      [of "''y''" fl1 fl2 placeholder "''c@d.org''" email_scrubber
          "[(''x'', ''a@b.com''), (''y'', ''c@d.org'')]"
          "[(''x'', ''{{EMAIL}}''), (''y'', ''{{EMAIL}}'')]"
          email_scrubber
          "[(''x'', ''nothing''), (''y'', ''c@d.org'')]"
          "[(''x'', ''nothing''), (''y'', ''{{EMAIL}}'')]"]
      c1 c2 e
    by simp
  then show ?thesis using c1 c2 e f1 f2 by simp
qed

subsection \<open>The order of registration\<close>

lemma clean_eq:
  "clean s rw text =
     (if yield_filth_only (detectors s) text None
      then Inr (replace_text rw text
                  (post_process_filth_list s
                     (post_process_filth_list s (merged (all_filths (detectors s) text None))))
                  None)
      else Inl (TypeError ''iter_filth must always yield Filth''))"
  by (simp add: clean_def iter_filth_eq)

lemma yield_filth_only_perm:
  assumes "mset reg1 = mset reg2"
  shows "yield_filth_only reg1 text dn = yield_filth_only reg2 text dn"
  using mset_eq_setD[OF assms] by (simp add: yield_filth_only_def list_all_iff)

lemma all_filths_perm:
  assumes "mset reg1 = mset reg2"
  shows "mset (all_filths reg1 text dn) = mset (all_filths reg2 text dn)"
proof -
  have "mset (concat (map g reg)) = sum_mset (image_mset (\<lambda>p. mset (g p)) (mset reg))"
    for g :: "string \<times> detector \<Rightarrow> filth list" and reg
    by (induction reg) auto
  then show ?thesis using assms by (simp add: all_filths_def)
qed

lemma document_names_perm:
  assumes "set fl1 = set fl2"
  shows "document_names fl1 = document_names fl2"
  using assms by (simp add: document_names_def named_documents_eq)

lemma sort_filths_perm:
  assumes m: "mset xs = mset ys" and inj: "inj_on sort_key_of (set xs)"
  shows "sort_filths xs = sort_filths ys"
  unfolding sort_filths_def
  by (rule sort_key_inj_key_eq[OF _ inj]) (simp_all add: m)

lemma merged_document_perm:
  assumes m: "mset fl1 = mset fl2" and d: "distinct (map span_of fl1)"
  shows "merged_document fl1 dn = merged_document fl2 dn"
proof -
  have inj: "inj_on span_of (set fl1)" using d by (simp add: distinct_map)
  have "inj_on sort_key_of (set (filter (\<lambda>f. document_name f = dn) fl1))"
  proof (rule inj_onI)
    fix a b
    assume a: "a \<in> set (filter (\<lambda>f. document_name f = dn) fl1)"
      and b: "b \<in> set (filter (\<lambda>f. document_name f = dn) fl1)"
      and k: "sort_key_of a = sort_key_of b"
    have "span_of a = span_of b" using a b k by (simp add: span_of_def sort_key_of_def)
    then show "a = b" using inj a b by (auto dest: inj_onD)
  qed
  moreover have "mset (filter (\<lambda>f. document_name f = dn) fl1)
               = mset (filter (\<lambda>f. document_name f = dn) fl2)"
    using m by simp
  ultimately have "sort_filths (filter (\<lambda>f. document_name f = dn) fl1)
                 = sort_filths (filter (\<lambda>f. document_name f = dn) fl2)"
    by (rule sort_filths_perm[rotated])
  then show ?thesis by (simp add: merged_document_def)
qed

lemma merged_perm:
  assumes m: "mset fl1 = mset fl2" and d: "distinct (map span_of fl1)"
  shows "merged fl1 = merged fl2"
proof -
  have "merged_document fl1 = merged_document fl2"
    using merged_document_perm[OF m d] by (simp add: fun_eq_iff)
  then show ?thesis
    using document_names_perm[OF mset_eq_setD[OF m]] by (simp add: merged_def)
qed

text \<open>
  Claim C4, amended. For every text and every two scrubbers that hold the same
  detectors, registered in any two orders, and the same post-processors: when no two of
  the spans that the detectors yield on the text share their document, begin and end,
  \<open>clean\<close> returns the same for both scrubbers, be it the cleaned text or the
  \<open>TypeError\<close> for a detector that yields a value that is not a \<open>Filth\<close>.
\<close>

theorem clean_registration_order:
  "mset (detectors s1) = mset (detectors s2) \<and> post_processors s1 = post_processors s2
   \<and> distinct (map span_of (all_filths (detectors s1) text None))
   \<longrightarrow> clean s1 rw text = clean s2 rw text"
proof
  assume h: "mset (detectors s1) = mset (detectors s2) \<and> post_processors s1 = post_processors s2
   \<and> distinct (map span_of (all_filths (detectors s1) text None))"
  then have m: "mset (detectors s1) = mset (detectors s2)"
    and p: "post_processors s1 = post_processors s2"
    and d: "distinct (map span_of (all_filths (detectors s1) text None))" by simp_all
  have y: "yield_filth_only (detectors s1) text None = yield_filth_only (detectors s2) text None"
    by (rule yield_filth_only_perm[OF m])
  have g: "merged (all_filths (detectors s1) text None) = merged (all_filths (detectors s2) text None)"
    by (rule merged_perm[OF all_filths_perm[OF m] d])
  have pp: "post_process_filth_list s1 = post_process_filth_list s2"
    using p by (simp add: post_process_filth_list_def fun_eq_iff)
  show "clean s1 rw text = clean s2 rw text"
    by (simp add: clean_eq y g pp)
qed

text \<open>
  The theorem on scenario 1 of the specification, the two detectors registered in the
  two orders.
\<close>

theorem clean_registration_order_witness:
  "mset (detectors \<lparr>detectors = [(''name'', span_detector ''name'' ''NAME'' 8 16),
                                  (''email'', span_detector ''email'' ''EMAIL'' 20 36)],
                    post_processors = []\<rparr>)
     = mset (detectors \<lparr>detectors = [(''email'', span_detector ''email'' ''EMAIL'' 20 36),
                                      (''name'', span_detector ''name'' ''NAME'' 8 16)],
                        post_processors = []\<rparr>)
   \<and> distinct (map span_of
        (all_filths (detectors \<lparr>detectors = [(''name'', span_detector ''name'' ''NAME'' 8 16),
                                               (''email'', span_detector ''email'' ''EMAIL'' 20 36)],
                                 post_processors = []\<rparr>)
           ''Contact John Doe or john@example.com'' None))
   \<and> clean \<lparr>detectors = [(''name'', span_detector ''name'' ''NAME'' 8 16),
                          (''email'', span_detector ''email'' ''EMAIL'' 20 36)],
            post_processors = []\<rparr> placeholder ''Contact John Doe or john@example.com''
       = Inr ''Contact {{NAME}} or {{EMAIL}}''
   \<and> clean \<lparr>detectors = [(''email'', span_detector ''email'' ''EMAIL'' 20 36),
                          (''name'', span_detector ''name'' ''NAME'' 8 16)],
            post_processors = []\<rparr> placeholder ''Contact John Doe or john@example.com''
       = Inr ''Contact {{NAME}} or {{EMAIL}}''"
proof -
  have m: "mset (detectors \<lparr>detectors = [(''name'', span_detector ''name'' ''NAME'' 8 16),
                                  (''email'', span_detector ''email'' ''EMAIL'' 20 36)],
                    post_processors = []\<rparr>)
     = mset (detectors \<lparr>detectors = [(''email'', span_detector ''email'' ''EMAIL'' 20 36),
                                      (''name'', span_detector ''name'' ''NAME'' 8 16)],
                        post_processors = []\<rparr>)"
    by simp
  have d: "distinct (map span_of
        (all_filths (detectors \<lparr>detectors = [(''name'', span_detector ''name'' ''NAME'' 8 16),
                                               (''email'', span_detector ''email'' ''EMAIL'' 20 36)],
                                 post_processors = []\<rparr>)
           ''Contact John Doe or john@example.com'' None))"
    by (simp add: all_filths_def yielded_filths_def span_detector_def span_of_def)
  have c: "clean \<lparr>detectors = [(''name'', span_detector ''name'' ''NAME'' 8 16),
                          (''email'', span_detector ''email'' ''EMAIL'' 20 36)],
            post_processors = []\<rparr> placeholder ''Contact John Doe or john@example.com''
       = Inr ''Contact {{NAME}} or {{EMAIL}}''"
    by (simp add: span_detector_def
        clean_def iter_filth_def merge_filths_def document_names_def named_documents_def
        merge_document_def sort_filths_def sort_key_of_def str_document_name_def merge_def
        post_process_filth_list_def replace_text_def Filth_def slice_def slice_from_def
        py_index_def placeholder_def)
  show ?thesis
    using m d c clean_registration_order
      [of "\<lparr>detectors = [(''name'', span_detector ''name'' ''NAME'' 8 16),
                          (''email'', span_detector ''email'' ''EMAIL'' 20 36)],
            post_processors = []\<rparr>"
          "\<lparr>detectors = [(''email'', span_detector ''email'' ''EMAIL'' 20 36),
                          (''name'', span_detector ''name'' ''NAME'' 8 16)],
            post_processors = []\<rparr>"
          "''Contact John Doe or john@example.com''" placeholder]
    by simp
qed

text \<open>
  The claim as it stands covers every set of detectors. Two detectors that yield the
  same range \<open>[0, 4)\<close> with different kinds give two spans with one sort key; the
  stable sort keeps them in the order of registration, the first absorbs the second, and
  the merged span lists the kinds in that order: the placeholder differs with the order
  of registration.
\<close>

theorem clean_registration_order_counterexample:
  "init empty_catalog
      (Some [AnInstance (span_detector ''name'' ''NAME'' 0 4),
             AnInstance (span_detector ''email'' ''EMAIL'' 0 4)]) (Some [])
     = Inr \<lparr>detectors = [(''name'', span_detector ''name'' ''NAME'' 0 4),
                          (''email'', span_detector ''email'' ''EMAIL'' 0 4)],
            post_processors = []\<rparr>
   \<and> init empty_catalog
      (Some [AnInstance (span_detector ''email'' ''EMAIL'' 0 4),
             AnInstance (span_detector ''name'' ''NAME'' 0 4)]) (Some [])
     = Inr \<lparr>detectors = [(''email'', span_detector ''email'' ''EMAIL'' 0 4),
                          (''name'', span_detector ''name'' ''NAME'' 0 4)],
            post_processors = []\<rparr>
   \<and> clean \<lparr>detectors = [(''name'', span_detector ''name'' ''NAME'' 0 4),
                          (''email'', span_detector ''email'' ''EMAIL'' 0 4)],
            post_processors = []\<rparr> placeholder ''John'' = Inr ''{{NAME+EMAIL}}''
   \<and> clean \<lparr>detectors = [(''email'', span_detector ''email'' ''EMAIL'' 0 4),
                          (''name'', span_detector ''name'' ''NAME'' 0 4)],
            post_processors = []\<rparr> placeholder ''John'' = Inr ''{{EMAIL+NAME}}''"
  by (simp add: init_def add_detector_def check_and_add_detector_def span_detector_def
        clean_def iter_filth_def merge_filths_def document_names_def named_documents_def
        merge_document_def sort_filths_def sort_key_of_def str_document_name_def merge_def
        post_process_filth_list_def replace_text_def Filth_def slice_def slice_from_def
        py_index_def placeholder_def)

end
